theory Spec2Isabelle
  imports Complex_Main "HOL-Library.Char_ord" "HOL-Library.List_Lexorder" "HOL-Library.Multiset"
begin

section \<open>Workout logger: the analytics core of \<^verbatim>\<open>workout_logger.py\<close>\<close>

text \<open>
  The development embeds the functions of \<^verbatim>\<open>workout_logger.py\<close> that compute
  something: the weight parser, the personal-record engine, the streak calculator, the
  weekly summary, the progress chart and the two loaders.

  Conventions of the embedding.
  \<^item> A Python \<^verbatim>\<open>str\<close> is a \<open>string\<close>; the order on strings is the lexicographic order
    on character codes, as Python's. Text is taken to be ASCII.
  \<^item> A Python \<^verbatim>\<open>float\<close> is the rational number it denotes (\<open>rat\<close>). Arithmetic and
    comparisons are exact: rounding to binary64, overflow and the non-finite values
    \<^verbatim>\<open>inf\<close> and \<^verbatim>\<open>nan\<close> are not part of the model.
  \<^item> An exception is a value: functions that can raise return \<open>error + 'a\<close>, and a
    \<^verbatim>\<open>try\<close>/\<^verbatim>\<open>except ValueError\<close> that yields \<^verbatim>\<open>None\<close> is an \<open>option\<close>.
  \<^item> The clock (\<^verbatim>\<open>datetime.now()\<close>) is a parameter: the current calendar day.
  \<^item> Each \<^verbatim>\<open>print\<close> of a function is one element of the list it returns; the
    numbers of a line are kept as numbers (the format specifications such as
    \<^verbatim>\<open>.1f\<close> and the decorations of a line are not modelled).
\<close>

subsection \<open>Strings\<close>

text \<open>\<^verbatim>\<open>str.lower\<close> on ASCII text.\<close>

definition lower_char :: "char \<Rightarrow> char" where
  "lower_char c =
     (if CHR ''A'' \<le> c \<and> c \<le> CHR ''Z'' then char_of (of_char c + (32::nat)) else c)"

definition lower :: "string \<Rightarrow> string" where
  "lower s = map lower_char s"

text \<open>
  The characters \<^verbatim>\<open>str.strip\<close> and \<^verbatim>\<open>float\<close> treat as white space, among ASCII:
  tab, line feed, vertical tab, form feed, carriage return, the four separators
  \<^verbatim>\<open>0x1c\<close> to \<^verbatim>\<open>0x1f\<close>, and the space.
\<close>

definition is_space :: "char \<Rightarrow> bool" where
  "is_space c =
     (let n = (of_char c :: nat) in (9 \<le> n \<and> n \<le> 13) \<or> (28 \<le> n \<and> n \<le> 32))"

definition strip :: "string \<Rightarrow> string" where
  "strip s = rev (dropWhile is_space (rev (dropWhile is_space s)))"

text \<open>\<^verbatim>\<open>sub in s\<close>: \<open>sub\<close> occurs in \<open>s\<close> as a contiguous piece.\<close>

fun starts_with :: "string \<Rightarrow> string \<Rightarrow> bool" where
  "starts_with [] s = True"
| "starts_with (p # ps) [] = False"
| "starts_with (p # ps) (c # cs) = (p = c \<and> starts_with ps cs)"

fun contains :: "string \<Rightarrow> string \<Rightarrow> bool" where
  "contains sub [] = (sub = [])"
| "contains sub (c # cs) = (starts_with sub (c # cs) \<or> contains sub cs)"

text \<open>
  \<^verbatim>\<open>s.replace(old, "")\<close> for a non-empty \<open>old\<close>: the occurrences of \<open>old\<close> are
  removed from left to right, without overlap. \<open>skip\<close> counts the characters of an
  occurrence still to be dropped.
\<close>

fun remove_from :: "nat \<Rightarrow> string \<Rightarrow> string \<Rightarrow> string" where
  "remove_from skip old [] = []"
| "remove_from (Suc k) old (c # cs) = remove_from k old cs"
| "remove_from 0 old (c # cs) =
     (if old \<noteq> [] \<and> starts_with old (c # cs) then remove_from (length old - 1) old cs
      else c # remove_from 0 old cs)"

definition remove_all :: "string \<Rightarrow> string \<Rightarrow> string" where
  "remove_all old s = remove_from 0 old s"

subsection \<open>The builtin \<^verbatim>\<open>float\<close> on text\<close>

text \<open>
  \<^verbatim>\<open>float(s)\<close> strips white space and reads a decimal literal: an optional sign, digits
  with an optional point (at least one digit before or after it), and an optional
  exponent \<^verbatim>\<open>e\<close> with an optional sign and at least one digit. An underscore may
  stand between two digits. Anything else raises \<^verbatim>\<open>ValueError\<close>, which is \<open>None\<close>
  here. The value is the rational the literal denotes. The literals \<^verbatim>\<open>inf\<close>,
  \<^verbatim>\<open>infinity\<close> and \<^verbatim>\<open>nan\<close>, which \<^verbatim>\<open>float\<close> reads as non-finite values, denote no
  rational: \<open>py_float\<close> gives \<open>None\<close> on them, and no statement below is about them.
\<close>

definition is_digit :: "char \<Rightarrow> bool" where
  "is_digit c = (CHR ''0'' \<le> c \<and> c \<le> CHR ''9'')"

definition digit_val :: "char \<Rightarrow> int" where
  "digit_val c = of_char c - 48"

definition digits_val :: "string \<Rightarrow> int" where
  "digits_val ds = foldl (\<lambda>n c. 10 * n + digit_val c) 0 ds"

text \<open>Every underscore has a digit on each side; \<open>prev\<close> is the character before.\<close>

fun underscores_ok :: "char \<Rightarrow> string \<Rightarrow> bool" where
  "underscores_ok prev [] = True"
| "underscores_ok prev (c # cs) =
     ((if c = CHR ''_'' then is_digit prev \<and> (case cs of [] \<Rightarrow> False | d # _ \<Rightarrow> is_digit d)
       else True)
      \<and> underscores_ok c cs)"

definition split_sign :: "string \<Rightarrow> bool \<times> string" where
  "split_sign s =
     (case s of
        [] \<Rightarrow> (False, [])
      | c # cs \<Rightarrow>
          if c = CHR ''-'' then (True, cs) else if c = CHR ''+'' then (False, cs) else (False, s))"

text \<open>The exponent part: empty, or \<^verbatim>\<open>e\<close> (either case), a sign, digits to the end.\<close>

definition exponent :: "string \<Rightarrow> int option" where
  "exponent s =
     (case s of
        [] \<Rightarrow> Some 0
      | c # cs \<Rightarrow>
          if c = CHR ''e'' \<or> c = CHR ''E'' then
            (let (neg, ds) = split_sign cs in
             if ds \<noteq> [] \<and> list_all is_digit ds
             then Some (if neg then - digits_val ds else digits_val ds)
             else None)
          else None)"

definition scale10 :: "rat \<Rightarrow> int \<Rightarrow> rat" where
  "scale10 m e = (if 0 \<le> e then m * 10 ^ nat e else m / 10 ^ nat (- e))"

definition py_float :: "string \<Rightarrow> rat option" where
  "py_float text =
     (let s = strip text in
      if \<not> underscores_ok CHR '' '' s then None
      else
        let (neg, body) = split_sign (filter (\<lambda>c. c \<noteq> CHR ''_'') s);
            ip = takeWhile is_digit body;
            r1 = dropWhile is_digit body;
            fp = (case r1 of [] \<Rightarrow> [] | c # cs \<Rightarrow> if c = CHR ''.'' then takeWhile is_digit cs else []);
            r2 = (case r1 of [] \<Rightarrow> [] | c # cs \<Rightarrow> if c = CHR ''.'' then dropWhile is_digit cs else r1)
        in if ip = [] \<and> fp = [] then None
           else
             (case exponent r2 of
                None \<Rightarrow> None
              | Some e \<Rightarrow>
                  let m = scale10 (of_int (digits_val (ip @ fp))) (e - int (length fp))
                  in Some (if neg then - m else m)))"

subsection \<open>Weight parser\<close>

text \<open>
  \<^verbatim>\<open>parse_weight\<close>. The argument is \<open>None\<close> for Python's \<^verbatim>\<open>None\<close>; \<^verbatim>\<open>not weight_str\<close>
  holds for \<^verbatim>\<open>None\<close> and for the empty text. The \<^verbatim>\<open>except ValueError\<close> turns a failure of
  \<^verbatim>\<open>float\<close> into \<^verbatim>\<open>None\<close>.
\<close>

definition lb_to_kg :: rat where
  "lb_to_kg = 453592 / 1000000"

definition parse_weight :: "string option \<Rightarrow> rat option" where
  "parse_weight weight_str =
     (case weight_str of
        None \<Rightarrow> None
      | Some text \<Rightarrow>
          if text = [] then None
          else
            let s = strip (lower text) in
            if contains ''kg'' s then py_float (strip (remove_all ''kg'' s))
            else if contains ''lb'' s then
              map_option (\<lambda>x. x * lb_to_kg)
                (py_float (strip (remove_all ''lb'' (remove_all ''lbs'' s))))
            else py_float s)"

subsection \<open>Workout entries\<close>

text \<open>
  A workout entry as \<^verbatim>\<open>log_workout\<close> stores it. The field \<open>weight\<close> is \<open>None\<close> when the
  entry has no \<^verbatim>\<open>weight\<close> key or holds \<^verbatim>\<open>null\<close>: \<^verbatim>\<open>w.get("weight", "")\<close> is then the
  empty text or \<^verbatim>\<open>None\<close>, and \<open>parse_weight\<close> gives \<open>None\<close> on both. The key
  \<^verbatim>\<open>notes\<close> is the field \<open>note_text\<close> (the word itself is reserved in Isabelle).
\<close>

record workout =
  date :: string
  body_part :: string
  exercise :: string
  sets :: int
  reps :: int
  weight :: "string option"
  note_text :: string
  session_muscles :: "string list"

subsection \<open>Personal records\<close>

text \<open>
  The loop of \<^verbatim>\<open>get_pr_for_exercise\<close>, with its two variables \<open>best\<close> and
  \<open>best_weight\<close>. The test \<^verbatim>\<open>weight and weight > best_weight\<close> fails for \<^verbatim>\<open>None\<close> and for
  the number zero.
\<close>

fun pr_scan :: "workout list \<Rightarrow> workout option \<Rightarrow> rat \<Rightarrow> workout option" where
  "pr_scan [] best best_weight = best"
| "pr_scan (w # ws) best best_weight =
     (case parse_weight (weight w) of
        None \<Rightarrow> pr_scan ws best best_weight
      | Some v \<Rightarrow>
          if v \<noteq> 0 \<and> best_weight < v then pr_scan ws (Some w) v
          else pr_scan ws best best_weight)"

text \<open>
  \<^verbatim>\<open>get_pr_for_exercise\<close>; \<open>workouts\<close> is the history that \<^verbatim>\<open>load_data(WORKOUT_FILE)\<close>
  returned.
\<close>

definition get_pr_for_exercise :: "workout list \<Rightarrow> string \<Rightarrow> workout option" where
  "get_pr_for_exercise workouts ex =
     (let exercise_workouts = filter (\<lambda>w. lower (exercise w) = lower ex) workouts in
      if exercise_workouts = [] then None else pr_scan exercise_workouts None 0)"

text \<open>
  \<^verbatim>\<open>check_pr\<close>: the pair \<^verbatim>\<open>(is_pr, old_pr_weight)\<close>. \<^verbatim>\<open>not new_weight_val\<close> holds for
  \<^verbatim>\<open>None\<close> and for zero.
\<close>

definition check_pr :: "workout list \<Rightarrow> string \<Rightarrow> string option \<Rightarrow> bool \<times> string option" where
  "check_pr workouts ex new_weight =
     (case parse_weight new_weight of
        None \<Rightarrow> (False, None)
      | Some new_weight_val \<Rightarrow>
          if new_weight_val = 0 then (False, None)
          else
            (case get_pr_for_exercise workouts ex of
               None \<Rightarrow> (True, None)
             | Some old_pr \<Rightarrow>
                 (case parse_weight (weight old_pr) of
                    None \<Rightarrow> (False, None)
                  | Some old_weight \<Rightarrow>
                      if old_weight \<noteq> 0 \<and> old_weight < new_weight_val
                      then (True, weight old_pr)
                      else (False, None))))"

text \<open>
  The words of the specification, for comparison with the code: the parsed weights of
  the entries of an exercise (matched without regard to case), the greatest of them,
  and the first entry that has it.
\<close>

definition same_exercise :: "string \<Rightarrow> workout \<Rightarrow> bool" where
  "same_exercise ex w = (lower (exercise w) = lower ex)"

definition parsed_weights :: "workout list \<Rightarrow> string \<Rightarrow> rat list" where
  "parsed_weights workouts ex =
     List.map_filter (\<lambda>w. parse_weight (weight w)) (filter (same_exercise ex) workouts)"

definition prior_best :: "workout list \<Rightarrow> string \<Rightarrow> rat" where
  "prior_best workouts ex = Max (set (parsed_weights workouts ex))"

definition prior_best_entry :: "workout list \<Rightarrow> string \<Rightarrow> workout option" where
  "prior_best_entry workouts ex =
     find (\<lambda>w. same_exercise ex w \<and> parse_weight (weight w) = Some (prior_best workouts ex))
       workouts"

text \<open>
  An entry for the examples: what \<^verbatim>\<open>log_workout\<close> stores for a leg exercise logged at
  \<open>d\<close> with the weight text \<open>wt\<close>.
\<close>

definition logged :: "string \<Rightarrow> string \<Rightarrow> string \<Rightarrow> workout" where
  "logged d ex wt =
     \<lparr>date = d, body_part = ''legs'', exercise = ex, sets = 3, reps = 5,
      weight = Some wt, note_text = [], session_muscles = [''legs'']\<rparr>"

subsection \<open>Loading the stored collections\<close>

datatype error = ValueError | JSONDecodeError

text \<open>
  The files: for each path, \<open>None\<close> when no file exists (\<^verbatim>\<open>os.path.exists\<close> is false),
  and otherwise what \<^verbatim>\<open>json.load\<close> makes of the file, the decoded document or the
  \<^verbatim>\<open>JSONDecodeError\<close> it raises on text that is not JSON. Neither loader has a
  \<^verbatim>\<open>try\<close>, so what \<^verbatim>\<open>json.load\<close> raises leaves the loader.
\<close>

type_synonym 'a files = "string \<Rightarrow> (error + 'a) option"

definition load_data :: "'a list files \<Rightarrow> string \<Rightarrow> error + 'a list" where
  "load_data fs filepath =
     (case fs filepath of
        Some document \<Rightarrow> document
      | None \<Rightarrow> Inr [])"

definition load_dict_data :: "('k \<rightharpoonup> 'v) files \<Rightarrow> string \<Rightarrow> error + ('k \<rightharpoonup> 'v)" where
  "load_dict_data fs filepath =
     (case fs filepath of
        Some document \<Rightarrow> document
      | None \<Rightarrow> Inr Map.empty)"

subsection \<open>Progress chart\<close>

text \<open>
  The records \<^verbatim>\<open>view_progress\<close> hands to the chart: the parsed weight and the date, sets
  and repetitions of a workout entry.
\<close>

record progress_record =
  rec_weight :: rat
  rec_date :: string
  rec_sets :: int
  rec_reps :: int

text \<open>One constructor for each \<^verbatim>\<open>print\<close> of \<^verbatim>\<open>show_progress_chart\<close>.\<close>

datatype chart_line =
    Title string
  | Rule
  | NeedTwoRecords
  | MaxLabel rat
  | ChartRow "bool list"
  | MinLabel rat nat
  | DateLabels "string list"
  | Progress rat rat string rat

text \<open>
  The builtins \<^verbatim>\<open>min\<close> and \<^verbatim>\<open>max\<close> on a list: the first element, replaced by a later
  one that is smaller (greater). On the empty list they raise; the chart calls them on
  two elements or more, and the functions have no equation for the empty list.
\<close>

fun py_min :: "rat list \<Rightarrow> rat" where
  "py_min (x # xs) = fold (\<lambda>y m. if y < m then y else m) xs x"

fun py_max :: "rat list \<Rightarrow> rat" where
  "py_max (x # xs) = fold (\<lambda>y m. if m < y then y else m) xs x"

definition chart_height :: nat where
  "chart_height = 8"

text \<open>The body of the loop over the rows: the threshold of the row and its line.\<close>

definition chart_row :: "rat \<Rightarrow> rat \<Rightarrow> progress_record list \<Rightarrow> nat \<Rightarrow> chart_line" where
  "chart_row min_w weight_range recent row =
     (let threshold = min_w + (weight_range * of_nat row / of_nat (chart_height - 1))
      in ChartRow (map (\<lambda>r. threshold \<le> rec_weight r) recent))"

text \<open>
  \<^verbatim>\<open>show_progress_chart\<close>. \<^verbatim>\<open>sorted\<close> is stable, as \<open>sort_key\<close> is;
  \<^verbatim>\<open>sorted_records[-10:]\<close> is the whole list when it has fewer than ten elements;
  \<^verbatim>\<open>range(chart_height - 1, -1, -1)\<close> counts from 7 down to 0; \<^verbatim>\<open>r["date"][5:10]\<close> is the
  month and day of a date.
\<close>

definition show_progress_chart :: "string \<Rightarrow> progress_record list \<Rightarrow> chart_line list" where
  "show_progress_chart ex records =
     (let sorted_records = sort_key rec_date records in
      [Title ex, Rule] @
      (if length sorted_records < 2 then [NeedTwoRecords]
       else
         let weights = map rec_weight sorted_records;
             min_w = py_min weights;
             max_w = py_max weights;
             weight_range = (if max_w \<noteq> min_w then max_w - min_w else 1);
             recent = drop (length sorted_records - 10) sorted_records;
             first_weight = rec_weight (hd sorted_records);
             last_weight = rec_weight (last sorted_records);
             diff = last_weight - first_weight
         in [MaxLabel max_w]
            @ map (chart_row min_w weight_range recent) (rev [0..<chart_height])
            @ [MinLabel min_w (length recent),
               DateLabels (map (\<lambda>r. take 5 (drop 5 (rec_date r))) recent),
               Progress first_weight last_weight (if 0 \<le> diff then ''+'' else '''') diff]))"

text \<open>A record for the examples: a weight on a date, three sets of five.\<close>

definition lifted :: "string \<Rightarrow> rat \<Rightarrow> progress_record" where
  "lifted d w = \<lparr>rec_weight = w, rec_date = d, rec_sets = 3, rec_reps = 5\<rparr>"

text \<open>
  Eleven sessions for the examples, one a day from the first of October 2026: 50kg on
  the first day, then 60kg and two more each day up to 78kg.
\<close>

definition eleven_sessions :: "progress_record list" where
  "eleven_sessions =
     [lifted ''2026-10-01 09:00'' 50, lifted ''2026-10-02 09:00'' 60, lifted ''2026-10-03 09:00'' 62,
      lifted ''2026-10-04 09:00'' 64, lifted ''2026-10-05 09:00'' 66, lifted ''2026-10-06 09:00'' 68,
      lifted ''2026-10-07 09:00'' 70, lifted ''2026-10-08 09:00'' 72, lifted ''2026-10-09 09:00'' 74,
      lifted ''2026-10-10 09:00'' 76, lifted ''2026-10-11 09:00'' 78]"

subsection \<open>Calendar days\<close>

text \<open>
  A calendar day is a year, a month and a day of the month, three integers as in
  Python. The ordinal of a day is \<^verbatim>\<open>date.toordinal\<close>: the number of days since the
  last day of the year 0.
\<close>

type_synonym day = "int \<times> int \<times> int"

definition is_leap :: "int \<Rightarrow> bool" where
  "is_leap y = (y mod 4 = 0 \<and> (y mod 100 \<noteq> 0 \<or> y mod 400 = 0))"

definition days_in_month :: "int \<Rightarrow> int \<Rightarrow> int" where
  "days_in_month y m =
     (if m = 2 then (if is_leap y then 29 else 28)
      else if m \<in> {4, 6, 9, 11} then 30 else 31)"

definition days_before_year :: "int \<Rightarrow> int" where
  "days_before_year y = (y - 1) * 365 + (y - 1) div 4 - (y - 1) div 100 + (y - 1) div 400"

definition days_before_month :: "int \<Rightarrow> int \<Rightarrow> int" where
  "days_before_month y m = sum_list (map (days_in_month y) [1..m - 1])"

definition toordinal :: "day \<Rightarrow> int" where
  "toordinal t = (case t of (y, m, d) \<Rightarrow> days_before_year y + days_before_month y m + d)"

definition valid_day :: "day \<Rightarrow> bool" where
  "valid_day t = (case t of (y, m, d) \<Rightarrow> 1 \<le> y \<and> y \<le> 9999 \<and> 1 \<le> m \<and> m \<le> 12 \<and> 1 \<le> d \<and> d \<le> days_in_month y m)"

text \<open>
  \<^verbatim>\<open>strftime("%Y-%m-%d")\<close>, for a year of four digits: the year, the month and the day
  with leading zeros.
\<close>

definition digit_char :: "int \<Rightarrow> char" where
  "digit_char n = char_of (48 + n mod 10)"

definition strftime :: "day \<Rightarrow> string" where
  "strftime t =
     (case t of (y, m, d) \<Rightarrow>
        [digit_char (y div 1000), digit_char (y div 100), digit_char (y div 10), digit_char y]
        @ ''-'' @ [digit_char (m div 10), digit_char m]
        @ ''-'' @ [digit_char (d div 10), digit_char d])"

text \<open>\<^verbatim>\<open>now - timedelta(days=1)\<close>, on calendar days: the day before.\<close>

definition prev_day :: "day \<Rightarrow> day" where
  "prev_day t =
     (case t of (y, m, d) \<Rightarrow>
        if 1 < d then (y, m, d - 1)
        else if 1 < m then (y, m - 1, days_in_month y (m - 1))
        else (y - 1, 12, 31))"

text \<open>
  \<^verbatim>\<open>datetime.strptime(s, "%Y-%m-%d")\<close>, as a calendar day; \<open>None\<close> is \<^verbatim>\<open>ValueError\<close>. The
  year is four digits; the month is 1 to 12, with or without a leading zero; the day is
  1 to 31, with or without a leading zero or with a leading space; hyphens separate
  them; nothing may follow; and the day must exist in the month.
\<close>

definition parse_month :: "string \<Rightarrow> int option" where
  "parse_month s =
     (case s of
        [a] \<Rightarrow> if CHR ''1'' \<le> a \<and> a \<le> CHR ''9'' then Some (digit_val a) else None
      | [a, b] \<Rightarrow>
          if a = CHR ''1'' \<and> CHR ''0'' \<le> b \<and> b \<le> CHR ''2'' then Some (10 + digit_val b)
          else if a = CHR ''0'' \<and> CHR ''1'' \<le> b \<and> b \<le> CHR ''9'' then Some (digit_val b)
          else None
      | _ \<Rightarrow> None)"

definition parse_day :: "string \<Rightarrow> int option" where
  "parse_day s =
     (case s of
        [a] \<Rightarrow> if CHR ''1'' \<le> a \<and> a \<le> CHR ''9'' then Some (digit_val a) else None
      | [a, b] \<Rightarrow>
          if a = CHR ''3'' \<and> CHR ''0'' \<le> b \<and> b \<le> CHR ''1'' then Some (30 + digit_val b)
          else if CHR ''1'' \<le> a \<and> a \<le> CHR ''2'' \<and> is_digit b then Some (10 * digit_val a + digit_val b)
          else if (a = CHR ''0'' \<or> a = CHR '' '') \<and> CHR ''1'' \<le> b \<and> b \<le> CHR ''9'' then Some (digit_val b)
          else None
      | _ \<Rightarrow> None)"

definition strptime :: "string \<Rightarrow> day option" where
  "strptime s =
     (let ys = take 4 s; rest = drop 4 s in
      if length ys = 4 \<and> list_all is_digit ys then
        (case rest of
           [] \<Rightarrow> None
         | h # ms \<Rightarrow>
             if h \<noteq> CHR ''-'' then None
             else
               (case dropWhile (\<lambda>c. c \<noteq> CHR ''-'') ms of
                  [] \<Rightarrow> None
                | _ # ds \<Rightarrow>
                    (case (parse_month (takeWhile (\<lambda>c. c \<noteq> CHR ''-'') ms), parse_day ds) of
                       (Some m, Some d) \<Rightarrow>
                         let y = digits_val ys in
                         if 1 \<le> y \<and> d \<le> days_in_month y m then Some (y, m, d) else None
                     | _ \<Rightarrow> None)))
      else None)"

subsection \<open>Streak\<close>

text \<open>
  The loop of \<^verbatim>\<open>calculate_streak\<close> over \<^verbatim>\<open>dates[i]\<close> and \<^verbatim>\<open>dates[i + 1]\<close>, with its
  counter. \<^verbatim>\<open>strptime\<close> raises \<^verbatim>\<open>ValueError\<close> on a text that is no date, and nothing
  catches it.
\<close>

fun streak_loop :: "string list \<Rightarrow> nat \<Rightarrow> error + nat" where
  "streak_loop (a # b # rest) streak =
     (case strptime a of
        None \<Rightarrow> Inl ValueError
      | Some current \<Rightarrow>
          (case strptime b of
             None \<Rightarrow> Inl ValueError
           | Some prev \<Rightarrow>
               if toordinal current - toordinal prev = 1 then streak_loop (b # rest) (streak + 1)
               else Inr streak))"
| "streak_loop dates streak = Inr streak"

text \<open>
  \<^verbatim>\<open>calculate_streak\<close>; \<open>now\<close> is the day of \<^verbatim>\<open>datetime.now()\<close>. The dates are the first
  ten characters of the entries' time stamps, each once, in descending order.
\<close>

definition workout_dates :: "workout list \<Rightarrow> string list" where
  "workout_dates workouts = rev (sort (remdups (map (\<lambda>w. take 10 (date w)) workouts)))"

definition calculate_streak :: "day \<Rightarrow> workout list \<Rightarrow> error + nat" where
  "calculate_streak now workouts =
     (if workouts = [] then Inr 0
      else
        let dates = workout_dates workouts in
        if dates = [] then Inr 0
        else
          let today = strftime now;
              yesterday = strftime (prev_day now)
          in if hd dates \<noteq> today \<and> hd dates \<noteq> yesterday then Inr 0
             else streak_loop dates 1)"



subsection \<open>Weekly summary\<close>

record meal =
  meal_date :: string
  meal_time :: string
  food :: string
  grams :: rat
  calories :: int

text \<open>One constructor for each \<^verbatim>\<open>print\<close> of \<^verbatim>\<open>view_weekly_summary\<close> that shows a figure.\<close>

datatype summary_line =
    WeekRange string string
  | Sessions nat
  | TotalExercises nat
  | BodyPart string nat
  | Streak nat
  | NoWorkouts
  | TotalCalories int
  | DaysLogged nat
  | DailyAverage rat
  | TopFood string nat
  | NoMeals

text \<open>
  Counting in a dictionary, \<^verbatim>\<open>counts[k] = counts.get(k, 0) + 1\<close>: the dictionary keeps
  its keys in the order of their first insertion.
\<close>

fun bump :: "'a \<Rightarrow> ('a \<times> nat) list \<Rightarrow> ('a \<times> nat) list" where
  "bump k [] = [(k, 1)]"
| "bump k ((k', c) # rest) = (if k = k' then (k', c + 1) # rest else (k', c) # bump k rest)"

definition tally :: "'a list \<Rightarrow> ('a \<times> nat) list" where
  "tally ks = foldl (\<lambda>counts k. bump k counts) [] ks"

definition by_count :: "('a \<times> nat) list \<Rightarrow> ('a \<times> nat) list" where
  "by_count items = sort_key (\<lambda>(k, c). - int c) items"

text \<open>The workout part, for the workouts of the week and the whole history.\<close>

definition workout_stats :: "day \<Rightarrow> workout list \<Rightarrow> workout list \<Rightarrow> error + summary_line list" where
  "workout_stats now workouts week_workouts =
     (if week_workouts \<noteq> [] then
        let session_dates = remdups (map (\<lambda>w. take 10 (date w)) week_workouts);
            total_exercises = length week_workouts;
            body_counts = tally (map body_part week_workouts);
            shown = [Sessions (length session_dates), TotalExercises total_exercises]
                    @ map (\<lambda>(bp, count). BodyPart bp count) (by_count body_counts)
        in (case calculate_streak now workouts of
              Inl e \<Rightarrow> Inl e
            | Inr streak \<Rightarrow> Inr (shown @ (if 0 < streak then [Streak streak] else [])))
      else Inr [NoWorkouts])"

text \<open>The nutrition part, for the meals of the week.\<close>

definition nutrition_stats :: "meal list \<Rightarrow> summary_line list" where
  "nutrition_stats week_meals =
     (if week_meals \<noteq> [] then
        let total_calories = sum_list (map calories week_meals);
            days_with_meals = length (remdups (map meal_date week_meals));
            avg_daily = (if 0 < days_with_meals then of_int total_calories / of_nat days_with_meals else 0);
            top_foods = take 3 (by_count (tally (map food week_meals)))
        in [TotalCalories total_calories, DaysLogged days_with_meals, DailyAverage avg_daily]
           @ map (\<lambda>(name, count). TopFood name count) top_foods
      else [NoMeals])"

text \<open>
  \<^verbatim>\<open>view_weekly_summary\<close>; \<open>workouts\<close> and \<open>meals\<close> are what \<^verbatim>\<open>load_data\<close> returned for
  the two files. The week starts seven days before today; dates are compared as text.
\<close>

definition week_ago_str :: "day \<Rightarrow> string" where
  "week_ago_str now = strftime ((prev_day ^^ 7) now)"

definition view_weekly_summary :: "day \<Rightarrow> workout list \<Rightarrow> meal list \<Rightarrow> error + summary_line list" where
  "view_weekly_summary now workouts meals =
     (let week_workouts = filter (\<lambda>w. week_ago_str now \<le> take 10 (date w)) workouts;
          week_meals = filter (\<lambda>m. week_ago_str now \<le> meal_date m) meals
      in (case workout_stats now workouts week_workouts of
            Inl e \<Rightarrow> Inl e
          | Inr lines \<Rightarrow>
              Inr (WeekRange (week_ago_str now) (strftime now) # lines @ nutrition_stats week_meals)))"

text \<open>A meal for the examples: a food with its calories on a date.\<close>

definition eaten :: "string \<Rightarrow> string \<Rightarrow> int \<Rightarrow> meal" where
  "eaten d f c = \<lparr>meal_date = d, meal_time = ''12:00'', food = f, grams = 100, calories = c\<rparr>"

section \<open>Properties\<close>

subsection \<open>Weight parser\<close>

lemma starts_with_iff: "starts_with p s \<longleftrightarrow> (\<exists>r. s = p @ r)"
  by (induction p s rule: starts_with.induct) auto

lemma contains_iff: "contains sub s \<longleftrightarrow> (\<exists>a b. s = a @ sub @ b)"
proof (induction s)
  case Nil
  then show ?case by auto
next
  case (Cons c cs)
  show ?case
  proof
    assume "contains sub (c # cs)"
    then consider "starts_with sub (c # cs)" | "contains sub cs" by auto
    then show "\<exists>a b. c # cs = a @ sub @ b"
    proof cases
      case 1
      then obtain r where "c # cs = sub @ r" unfolding starts_with_iff by blast
      then have "c # cs = [] @ sub @ r" by simp
      then show ?thesis by blast
    next
      case 2
      with Cons.IH obtain a b where "cs = a @ sub @ b" by blast
      then have "c # cs = (c # a) @ sub @ b" by simp
      then show ?thesis by blast
    qed
  next
    assume "\<exists>a b. c # cs = a @ sub @ b"
    then obtain a b where ab: "c # cs = a @ sub @ b" by blast
    show "contains sub (c # cs)"
    proof (cases a)
      case Nil
      with ab have "starts_with sub (c # cs)" unfolding starts_with_iff by auto
      then show ?thesis by simp
    next
      case (Cons x a')
      with ab have "cs = a' @ sub @ b" by simp
      with Cons.IH have "contains sub cs" by blast
      then show ?thesis by simp
    qed
  qed
qed

text \<open>
  Claim C3. \<open>parse_weight\<close> gives no value on \<^verbatim>\<open>None\<close> and on the empty text. Otherwise
  it works on the text trimmed and in lower case: where \<^verbatim>\<open>kg\<close> occurs, it removes it
  and reads the rest as a number; else where \<^verbatim>\<open>lb\<close> occurs, it removes \<^verbatim>\<open>lbs\<close> and
  \<^verbatim>\<open>lb\<close>, reads the rest and multiplies by 0.453592; else it reads the text as it is. A
  text that is no number gives no value. 100kg is 100, bogus is no value, and 225lbs is
  within 0.01 of 102.06.
\<close>

theorem parse_weight_rules:
  "parse_weight None = None
   \<and> parse_weight (Some []) = None
   \<and> (t \<noteq> [] \<and> (\<exists>a b. strip (lower t) = a @ ''kg'' @ b) \<longrightarrow>
        parse_weight (Some t) = py_float (strip (remove_all ''kg'' (strip (lower t)))))
   \<and> (t \<noteq> [] \<and> (\<nexists>a b. strip (lower t) = a @ ''kg'' @ b) \<and> (\<exists>a b. strip (lower t) = a @ ''lb'' @ b) \<longrightarrow>
        parse_weight (Some t) =
          map_option (\<lambda>x. x * (453592 / 1000000))
            (py_float (strip (remove_all ''lb'' (remove_all ''lbs'' (strip (lower t)))))))
   \<and> (t \<noteq> [] \<and> (\<nexists>a b. strip (lower t) = a @ ''kg'' @ b) \<and> (\<nexists>a b. strip (lower t) = a @ ''lb'' @ b) \<longrightarrow>
        parse_weight (Some t) = py_float (strip (lower t)))
   \<and> parse_weight (Some ''100kg'') = Some 100
   \<and> parse_weight (Some ''bogus'') = None
   \<and> (\<exists>v. parse_weight (Some ''225lbs'') = Some v \<and> \<bar>v - 10206 / 100\<bar> \<le> 1 / 100)"
proof -
  have a: "parse_weight (Some ''100kg'') = Some 100" by code_simp
  have b: "parse_weight (Some ''bogus'') = None" by code_simp
  have c: "parse_weight (Some ''225lbs'') = Some (1020582 / 10000)" by code_simp
  have d: "\<bar>(1020582 / 10000 :: rat) - 10206 / 100\<bar> \<le> 1 / 100" by simp
  from c d have e: "\<exists>v. parse_weight (Some ''225lbs'') = Some v \<and> \<bar>v - 10206 / 100\<bar> \<le> 1 / 100"
    by blast
  have g: "parse_weight None = None" "parse_weight (Some []) = None"
    by (simp_all add: parse_weight_def)
  have kg: "parse_weight (Some t) = py_float (strip (remove_all ''kg'' (strip (lower t))))"
    if "t \<noteq> []" "\<exists>a b. strip (lower t) = a @ ''kg'' @ b"
    using that unfolding contains_iff [symmetric] by (simp add: parse_weight_def Let_def)
  have lb: "parse_weight (Some t) =
          map_option (\<lambda>x. x * (453592 / 1000000))
            (py_float (strip (remove_all ''lb'' (remove_all ''lbs'' (strip (lower t))))))"
    if "t \<noteq> []" "\<nexists>a b. strip (lower t) = a @ ''kg'' @ b" "\<exists>a b. strip (lower t) = a @ ''lb'' @ b"
    using that unfolding contains_iff [symmetric] by (simp add: parse_weight_def Let_def lb_to_kg_def)
  have bare: "parse_weight (Some t) = py_float (strip (lower t))"
    if "t \<noteq> []" "\<nexists>a b. strip (lower t) = a @ ''kg'' @ b" "\<nexists>a b. strip (lower t) = a @ ''lb'' @ b"
    using that unfolding contains_iff [symmetric] by (simp add: parse_weight_def Let_def)
  show ?thesis
    using a b e g kg lb bare by blast
qed

text \<open>The three rules at work, on texts with spaces and capitals.\<close>

theorem parse_weight_rules_witness:
  "parse_weight (Some '' 80.5 KG '') = Some (161 / 2)
   \<and> parse_weight (Some ''220 Lb'') = Some (220 * (453592 / 1000000))
   \<and> parse_weight (Some ''220 lbs'') = Some (220 * (453592 / 1000000))
   \<and> parse_weight (Some ''72.5'') = Some (145 / 2)
   \<and> parse_weight (Some ''heavy'') = None"
proof -
  have k: "contains ''kg'' (strip (lower '' 80.5 KG ''))" by code_simp
  have kv: "py_float (strip (remove_all ''kg'' (strip (lower '' 80.5 KG '')))) = Some (161 / 2)"
    by code_simp
  have l: "\<not> contains ''kg'' (strip (lower ''220 Lb''))" "contains ''lb'' (strip (lower ''220 Lb''))"
    "\<not> contains ''kg'' (strip (lower ''220 lbs''))" "contains ''lb'' (strip (lower ''220 lbs''))"
    by code_simp+
  have lv: "py_float (strip (remove_all ''lb'' (remove_all ''lbs'' (strip (lower ''220 Lb''))))) = Some 220"
    "py_float (strip (remove_all ''lb'' (remove_all ''lbs'' (strip (lower ''220 lbs''))))) = Some 220"
    by code_simp+
  have n: "\<not> contains ''kg'' (strip (lower ''72.5''))" "\<not> contains ''lb'' (strip (lower ''72.5''))"
    "\<not> contains ''kg'' (strip (lower ''heavy''))" "\<not> contains ''lb'' (strip (lower ''heavy''))"
    by code_simp+
  have nv: "py_float (strip (lower ''72.5'')) = Some (145 / 2)" "py_float (strip (lower ''heavy'')) = None"
    by code_simp+
  have ne: "'' 80.5 KG '' \<noteq> []" "''220 Lb'' \<noteq> []" "''220 lbs'' \<noteq> []" "''72.5'' \<noteq> []" "''heavy'' \<noteq> []"
    by simp_all
  have k': "\<exists>a b. strip (lower '' 80.5 KG '') = a @ ''kg'' @ b" using k by (simp only: contains_iff)
  show ?thesis
    using parse_weight_rules [of "'' 80.5 KG ''"] parse_weight_rules [of "''220 Lb''"]
      parse_weight_rules [of "''220 lbs''"] parse_weight_rules [of "''72.5''"]
      parse_weight_rules [of "''heavy''"]
      k' kv l lv n nv ne
    unfolding contains_iff by simp
qed

subsection \<open>Personal records\<close>

lemma pr_scan_keep:
  "\<forall>w\<in>set ws. \<forall>v. parse_weight (weight w) = Some v \<longrightarrow> v = 0 \<or> v \<le> bw \<Longrightarrow> pr_scan ws best bw = best"
  by (induction ws arbitrary: best bw) (auto split: option.splits)

lemma pr_scan_split:
  assumes "0 \<le> bw"
    and "\<exists>w\<in>set ws. \<exists>v. parse_weight (weight w) = Some v \<and> bw < v"
  shows "\<exists>pre b post vb. ws = pre @ b # post \<and> parse_weight (weight b) = Some vb \<and> bw < vb
           \<and> (\<forall>w\<in>set pre. \<forall>v. parse_weight (weight w) = Some v \<longrightarrow> v < vb)
           \<and> (\<forall>w\<in>set post. \<forall>v. parse_weight (weight w) = Some v \<longrightarrow> v \<le> vb)
           \<and> pr_scan ws best bw = Some b"
  using assms
proof (induction ws arbitrary: best bw)
  case Nil
  then show ?case by simp
next
  case (Cons w ws)
  show ?case
  proof (cases "\<exists>v. parse_weight (weight w) = Some v \<and> bw < v")
    case True
    then obtain v where v: "parse_weight (weight w) = Some v" "bw < v" by blast
    with Cons.prems have step: "pr_scan (w # ws) best bw = pr_scan ws (Some w) v" by simp
    show ?thesis
    proof (cases "\<exists>w'\<in>set ws. \<exists>v'. parse_weight (weight w') = Some v' \<and> v < v'")
      case True
      from v Cons.prems have "0 \<le> v" by simp
      from Cons.IH [OF this True, of "Some w"]
      obtain pre b post vb where s: "ws = pre @ b # post" "parse_weight (weight b) = Some vb" "v < vb"
        "\<forall>w\<in>set pre. \<forall>v. parse_weight (weight w) = Some v \<longrightarrow> v < vb"
        "\<forall>w\<in>set post. \<forall>v. parse_weight (weight w) = Some v \<longrightarrow> v \<le> vb"
        "pr_scan ws (Some w) v = Some b" by blast
      have "w # ws = (w # pre) @ b # post" using s(1) by simp
      moreover have "\<forall>x\<in>set (w # pre). \<forall>u. parse_weight (weight x) = Some u \<longrightarrow> u < vb"
        using s(3,4) v(1) by auto
      moreover have "bw < vb" using v(2) s(3) by simp
      ultimately show ?thesis using s(2,5,6) step by metis
    next
      case False
      then have "\<forall>x\<in>set ws. \<forall>u. parse_weight (weight x) = Some u \<longrightarrow> u = 0 \<or> u \<le> v"
        by (meson not_le_imp_less)
      then have "pr_scan ws (Some w) v = Some w" by (rule pr_scan_keep)
      moreover have "\<forall>x\<in>set ws. \<forall>u. parse_weight (weight x) = Some u \<longrightarrow> u \<le> v"
        using False by (meson not_le_imp_less)
      moreover have "w # ws = [] @ w # ws" by simp
      moreover have "\<forall>x\<in>set []. \<forall>u. parse_weight (weight x) = Some u \<longrightarrow> u < v" by simp
      ultimately show ?thesis using v step by metis
    qed
  next
    case False
    then have step: "pr_scan (w # ws) best bw = pr_scan ws best bw"
      using Cons.prems(1) by (auto split: option.splits)
    from False Cons.prems(2)
    have ex: "\<exists>w\<in>set ws. \<exists>v. parse_weight (weight w) = Some v \<and> bw < v" by auto
    from Cons.IH [OF Cons.prems(1) ex, of best]
    obtain pre b post vb where s: "ws = pre @ b # post" "parse_weight (weight b) = Some vb" "bw < vb"
        "\<forall>w\<in>set pre. \<forall>v. parse_weight (weight w) = Some v \<longrightarrow> v < vb"
        "\<forall>w\<in>set post. \<forall>v. parse_weight (weight w) = Some v \<longrightarrow> v \<le> vb"
        "pr_scan ws best bw = Some b" by blast
    have "w # ws = (w # pre) @ b # post" using s(1) by simp
    moreover have "\<forall>x\<in>set (w # pre). \<forall>u. parse_weight (weight x) = Some u \<longrightarrow> u < vb"
      using s(3,4) False by force
    ultimately show ?thesis using s(2,3,5,6) step by metis
  qed
qed

lemma pr_scan_positive:
  "pr_scan ws best bw = Some b \<Longrightarrow> best = Some b \<or> (\<exists>v. parse_weight (weight b) = Some v \<and> v \<noteq> 0)"
  by (induction ws arbitrary: best bw) (auto split: option.splits if_splits)

lemma set_map_filter: "set (List.map_filter f xs) = {v. \<exists>x\<in>set xs. f x = Some v}"
  by (induction xs) (auto simp: List.map_filter_simps split: option.splits)

lemma find_conj_filter: "find (\<lambda>x. P x \<and> Q x) xs = find Q (filter P xs)"
  by (induction xs) auto

lemma find_first: "Q b \<Longrightarrow> \<forall>x\<in>set pre. \<not> Q x \<Longrightarrow> find Q (pre @ b # post) = Some b"
  by (induction pre) auto

lemma prior_best_of_history:
  assumes "\<exists>w\<in>set ws. same_exercise ex w \<and> (\<exists>v. parse_weight (weight w) = Some v \<and> 0 < v)"
  shows "\<exists>b. prior_best_entry ws ex = Some b
           \<and> get_pr_for_exercise ws ex = Some b
           \<and> parse_weight (weight b) = Some (prior_best ws ex)
           \<and> 0 < prior_best ws ex"
proof -
  let ?ews = "filter (same_exercise ex) ws"
  from assms have ex: "\<exists>w\<in>set ?ews. \<exists>v. parse_weight (weight w) = Some v \<and> 0 < v" by auto
  then have ne: "?ews \<noteq> []" by (cases "?ews") simp_all
  from pr_scan_split [OF order_refl ex, of None]
  obtain pre b post vb where s: "?ews = pre @ b # post" "parse_weight (weight b) = Some vb" "0 < vb"
        "\<forall>w\<in>set pre. \<forall>v. parse_weight (weight w) = Some v \<longrightarrow> v < vb"
        "\<forall>w\<in>set post. \<forall>v. parse_weight (weight w) = Some v \<longrightarrow> v \<le> vb"
        "pr_scan ?ews None 0 = Some b" by blast
  have vals: "set (parsed_weights ws ex) = {v. \<exists>x\<in>set ?ews. parse_weight (weight x) = Some v}"
    by (simp add: parsed_weights_def set_map_filter)
  have "vb \<in> set (parsed_weights ws ex)"
    unfolding vals using s(1,2) by auto
  moreover have "\<forall>y\<in>set (parsed_weights ws ex). y \<le> vb"
    unfolding vals using s(1,2,4,5) by (auto simp: less_imp_le)
  ultimately have mx: "prior_best ws ex = vb"
    unfolding prior_best_def by (intro Max_eqI) auto
  have "find (\<lambda>w. parse_weight (weight w) = Some vb) (pre @ b # post) = Some b"
    using s(2,4) by (intro find_first) auto
  then have "prior_best_entry ws ex = Some b"
    unfolding prior_best_entry_def mx find_conj_filter s(1) .
  moreover have "get_pr_for_exercise ws ex = Some b"
    using ne s(6) by (simp add: get_pr_for_exercise_def same_exercise_def [abs_def] Let_def)
  ultimately show ?thesis using s(2,3) mx by simp
qed

text \<open>
  Claim C1, as amended. When the history holds an entry of the exercise (matched without
  regard to case) whose parsed weight is positive, \<open>check_pr\<close> answers \<open>(True, t)\<close>
  exactly when the parsed new weight is greater than the greatest parsed weight of the
  exercise's entries, \<open>t\<close> being the weight text, as stored, of the first entry that has
  that greatest weight; on a tie, a smaller weight, or a new weight that is empty or
  does not parse, it answers \<open>(False, None)\<close>.
\<close>

theorem check_pr_prior_best:
  assumes "\<exists>w\<in>set ws. same_exercise ex w \<and> (\<exists>v. parse_weight (weight w) = Some v \<and> 0 < v)"
  shows "\<exists>b t. prior_best_entry ws ex = Some b \<and> weight b = Some t
           \<and> parse_weight (Some t) = Some (prior_best ws ex)
           \<and> check_pr ws ex nw =
               (case parse_weight nw of
                  None \<Rightarrow> (False, None)
                | Some x \<Rightarrow> if prior_best ws ex < x then (True, Some t) else (False, None))"
proof -
  from prior_best_of_history [OF assms]
  obtain b where b: "prior_best_entry ws ex = Some b" "get_pr_for_exercise ws ex = Some b"
    "parse_weight (weight b) = Some (prior_best ws ex)" "0 < prior_best ws ex" by blast
  from b(3) obtain t where t: "weight b = Some t"
    by (cases "weight b") (auto simp: parse_weight_def)
  have "check_pr ws ex nw =
               (case parse_weight nw of
                  None \<Rightarrow> (False, None)
                | Some x \<Rightarrow> if prior_best ws ex < x then (True, Some t) else (False, None))"
    using b(2,3,4) t by (auto simp: check_pr_def split: option.splits)
  with b(1,3) t show ?thesis by auto
qed

text \<open>
  The examples of the specification: one stored squat at 100kg, and a new weight of
  105kg, 100kg and 50kg.
\<close>

theorem check_pr_prior_best_witness:
  "check_pr [logged ''2026-11-01 10:00'' ''Squat'' ''100kg''] ''Squat'' (Some ''105kg'') = (True, Some ''100kg'')
   \<and> check_pr [logged ''2026-11-01 10:00'' ''Squat'' ''100kg''] ''Squat'' (Some ''100kg'') = (False, None)
   \<and> check_pr [logged ''2026-11-01 10:00'' ''Squat'' ''100kg''] ''Squat'' (Some ''50kg'') = (False, None)"
proof -
  let ?e = "logged ''2026-11-01 10:00'' ''Squat'' ''100kg''"
  have pw: "parse_weight (Some ''100kg'') = Some 100" by code_simp
  have "same_exercise ''Squat'' ?e" by code_simp
  moreover have "parse_weight (weight ?e) = Some 100 \<and> (0::rat) < 100"
    using pw by (simp add: logged_def)
  ultimately have hyp: "\<exists>w\<in>set [?e]. same_exercise ''Squat'' w
      \<and> (\<exists>v. parse_weight (weight w) = Some v \<and> 0 < v)" by auto
  have e: "prior_best_entry [?e] ''Squat'' = Some ?e" by code_simp
  have m: "prior_best [?e] ''Squat'' = 100" by code_simp
  have w: "weight ?e = Some ''100kg''" by (simp add: logged_def)
  have n: "parse_weight (Some ''105kg'') = Some 105" "parse_weight (Some ''50kg'') = Some 50" by code_simp+
  show ?thesis
    using check_pr_prior_best [OF hyp, of "Some ''105kg''"]
      check_pr_prior_best [OF hyp, of "Some ''100kg''"]
      check_pr_prior_best [OF hyp, of "Some ''50kg''"]
    by (simp add: e m w n pw)
qed

text \<open>
  Claim C1 as stated asks only for an entry with a parseable weight. A stored weight of
  0kg parses, and 5kg is greater, yet the answer names no previous weight: the entry is
  never the prior best.
\<close>

theorem check_pr_zero_history_counterexample:
  "parsed_weights [logged ''2026-11-01 10:00'' ''Squat'' ''0kg''] ''Squat'' = [0]
   \<and> parse_weight (Some ''5kg'') = Some 5
   \<and> check_pr [logged ''2026-11-01 10:00'' ''Squat'' ''0kg''] ''Squat'' (Some ''5kg'') = (True, None)"
  by code_simp

text \<open>
  Claim C2, as amended. When no entry of the exercise has a parseable weight (the empty
  history included) and the new weight text parses to a number other than zero,
  \<open>check_pr\<close> answers \<open>(True, None)\<close>: a first recorded lift.
\<close>

theorem first_recorded_lift:
  assumes "\<forall>w\<in>set ws. same_exercise ex w \<longrightarrow> parse_weight (weight w) = None"
    and "parse_weight nw = Some x" and "x \<noteq> 0"
  shows "check_pr ws ex nw = (True, None)"
proof -
  let ?ews = "filter (same_exercise ex) ws"
  have "\<forall>w\<in>set ?ews. \<forall>v. parse_weight (weight w) = Some v \<longrightarrow> v = 0 \<or> v \<le> 0"
    using assms(1) by simp
  then have "pr_scan ?ews None 0 = None" by (rule pr_scan_keep)
  then have "get_pr_for_exercise ws ex = None"
    by (simp add: get_pr_for_exercise_def same_exercise_def [abs_def] Let_def)
  then show ?thesis using assms(2,3) by (simp add: check_pr_def)
qed

text \<open>
  The example of the specification (an empty history, 60kg), and a history whose only
  deadlift has the weight text \<^verbatim>\<open>heavy\<close>.
\<close>

theorem first_recorded_lift_witness:
  "check_pr [] ''Deadlift'' (Some ''60kg'') = (True, None)
   \<and> check_pr [logged ''2026-11-01 10:00'' ''Deadlift'' ''heavy'', logged ''2026-11-01 10:05'' ''Squat'' ''100kg'']
        ''Deadlift'' (Some ''60kg'') = (True, None)"
proof -
  let ?h = "[logged ''2026-11-01 10:00'' ''Deadlift'' ''heavy'', logged ''2026-11-01 10:05'' ''Squat'' ''100kg'']"
  have n: "parse_weight (Some ''60kg'') = Some 60" by code_simp
  have z: "(60::rat) \<noteq> 0" by simp
  have h0: "\<forall>w\<in>set ([]::workout list). same_exercise ''Deadlift'' w \<longrightarrow> parse_weight (weight w) = None"
    by simp
  have a: "\<not> same_exercise ''Deadlift'' (logged ''2026-11-01 10:05'' ''Squat'' ''100kg'')" by code_simp
  have b: "parse_weight (weight (logged ''2026-11-01 10:00'' ''Deadlift'' ''heavy'')) = None" by code_simp
  have h1: "\<forall>w\<in>set ?h. same_exercise ''Deadlift'' w \<longrightarrow> parse_weight (weight w) = None"
    using a b by simp
  show ?thesis
    using first_recorded_lift [OF h0 n z] first_recorded_lift [OF h1 n z] by simp
qed

text \<open>
  Claim C2 as stated covers every new weight that parses to a value. The text 0kg parses
  to the value zero, and on the empty history the answer is \<open>(False, None)\<close>.
\<close>

theorem first_lift_zero_counterexample:
  "parse_weight (Some ''0kg'') = Some 0 \<and> check_pr [] ''Deadlift'' (Some ''0kg'') = (False, None)"
  by code_simp

text \<open>
  Claim C10. A new weight that parses to zero is never a record, whatever the history;
  and the entry \<open>get_pr_for_exercise\<close> selects never has a weight that parses to zero.
\<close>

theorem zero_weight_is_absent:
  "(parse_weight nw = Some 0 \<longrightarrow> check_pr ws ex nw = (False, None))
   \<and> (\<forall>b. get_pr_for_exercise ws ex = Some b \<longrightarrow> parse_weight (weight b) \<noteq> Some 0)"
proof -
  have "parse_weight (weight b) \<noteq> Some 0" if "get_pr_for_exercise ws ex = Some b" for b
  proof -
    from that have "pr_scan (filter (\<lambda>w. lower (exercise w) = lower ex) ws) None 0 = Some b"
      by (simp add: get_pr_for_exercise_def Let_def split: if_splits)
    from pr_scan_positive [OF this] show ?thesis by auto
  qed
  then show ?thesis by (simp add: check_pr_def)
qed

text \<open>
  Zero as the new weight on the empty history and on a history with a squat at 100kg; a
  history whose only squat is at 0kg has no prior best.
\<close>

theorem zero_weight_is_absent_witness:
  "check_pr [] ''Squat'' (Some ''0kg'') = (False, None)
   \<and> check_pr [logged ''2026-11-01 10:00'' ''Squat'' ''100kg''] ''Squat'' (Some ''0'') = (False, None)
   \<and> get_pr_for_exercise [logged ''2026-11-01 10:00'' ''Squat'' ''0kg''] ''Squat''
       \<noteq> Some (logged ''2026-11-01 10:00'' ''Squat'' ''0kg'')"
proof -
  let ?z = "logged ''2026-11-01 10:00'' ''Squat'' ''0kg''"
  have a: "parse_weight (Some ''0kg'') = Some 0" "parse_weight (Some ''0'') = Some 0" by code_simp+
  have b: "parse_weight (weight ?z) = Some 0" using a by (simp add: logged_def)
  show ?thesis
    using zero_weight_is_absent [of "Some ''0kg''" "[]" "''Squat''"]
      zero_weight_is_absent [of "Some ''0''" "[logged ''2026-11-01 10:00'' ''Squat'' ''100kg'']" "''Squat''"]
      zero_weight_is_absent [of "Some ''0''" "[?z]" "''Squat''"]
      a b by blast
qed

subsection \<open>Loading\<close>

text \<open>
  Claim C8, as amended. A load from a path with no file gives the empty collection, the
  empty list from \<open>load_data\<close> and the empty dictionary from \<open>load_dict_data\<close>, and
  raises nothing; so on a first run, with no file at all, the streak is 0, no exercise
  has a record and the weekly summary reports that nothing was logged. A file that
  exists and does not decode is not handled: the load raises the decoder's error.
\<close>

theorem load_missing_or_corrupted:
  "(fs p = None \<longrightarrow> load_data fs p = Inr [])
   \<and> (fd p = None \<longrightarrow> load_dict_data fd p = Inr Map.empty)
   \<and> (fs p = Some (Inl e) \<longrightarrow> load_data fs p = Inl e)
   \<and> (fd p = Some (Inl e) \<longrightarrow> load_dict_data fd p = Inl e)
   \<and> calculate_streak now [] = Inr 0
   \<and> get_pr_for_exercise [] ex = None
   \<and> view_weekly_summary now [] [] = Inr [WeekRange (week_ago_str now) (strftime now), NoWorkouts, NoMeals]"
  by (simp add: load_data_def load_dict_data_def calculate_streak_def get_pr_for_exercise_def
      view_weekly_summary_def workout_stats_def nutrition_stats_def)

text \<open>Missing files and files that do not decode, for both loaders.\<close>

theorem load_missing_or_corrupted_witness:
  "load_data (Map.empty :: workout list files) ''workouts.json'' = Inr []
   \<and> load_dict_data (Map.empty :: (string \<rightharpoonup> int) files) ''custom_foods.json'' = Inr Map.empty
   \<and> load_data (Map.empty(''meals.json'' \<mapsto> Inl JSONDecodeError) :: meal list files) ''meals.json''
       = Inl JSONDecodeError
   \<and> load_dict_data (Map.empty(''templates.json'' \<mapsto> Inl JSONDecodeError) :: (string \<rightharpoonup> int) files)
       ''templates.json'' = Inl JSONDecodeError"
  using load_missing_or_corrupted
      [of "Map.empty :: workout list files" "''workouts.json''"
        "Map.empty :: (string \<rightharpoonup> int) files"]
    load_missing_or_corrupted
      [of "Map.empty :: workout list files" "''custom_foods.json''"
        "Map.empty :: (string \<rightharpoonup> int) files"]
    load_missing_or_corrupted
      [of "Map.empty(''meals.json'' \<mapsto> Inl JSONDecodeError) :: meal list files" "''meals.json''"
        "Map.empty :: (string \<rightharpoonup> int) files" JSONDecodeError]
    load_missing_or_corrupted
      [of "Map.empty :: workout list files" "''templates.json''"
        "Map.empty(''templates.json'' \<mapsto> Inl JSONDecodeError) :: (string \<rightharpoonup> int) files" JSONDecodeError]
  by simp

text \<open>
  Claim C8 as stated has a corrupted file treated as the empty collection. Where
  \<^verbatim>\<open>json.load\<close> raises on the file, so does the loader.
\<close>

theorem load_corrupted_counterexample:
  "load_data (Map.empty(''workouts.json'' \<mapsto> Inl JSONDecodeError) :: workout list files) ''workouts.json''
     = Inl JSONDecodeError
   \<and> load_dict_data (Map.empty(''templates.json'' \<mapsto> Inl JSONDecodeError) :: (string \<rightharpoonup> int) files)
       ''templates.json'' = Inl JSONDecodeError"
  by (simp add: load_data_def load_dict_data_def)

subsection \<open>Chart\<close>

text \<open>
  Claim C9. With fewer than two records the chart function prints its title, the rule
  under it and the message that two records are needed, and nothing else: no chart.
  The result is an ordinary value, not an error.
\<close>

theorem chart_needs_two_records:
  "length records < 2 \<Longrightarrow> show_progress_chart ex records = [Title ex, Rule, NeedTwoRecords]"
  by (simp add: show_progress_chart_def)

text \<open>No record, and one record.\<close>

theorem chart_needs_two_records_witness:
  "show_progress_chart ''Squat'' [] = [Title ''Squat'', Rule, NeedTwoRecords]
   \<and> show_progress_chart ''Squat'' [lifted ''2026-11-03 10:00'' 100] = [Title ''Squat'', Rule, NeedTwoRecords]"
  using chart_needs_two_records [of "[]" "''Squat''"]
    chart_needs_two_records [of "[lifted ''2026-11-03 10:00'' 100]" "''Squat''"]
  by simp







text \<open>
  Claim C5, as amended. For two records or more, the last line of the chart reports the
  first value of the whole series in date order, the last value, which is the last one
  shown, and the last minus the first, with the prefix \<^verbatim>\<open>+\<close> exactly when the
  difference is not negative. The first value of the series is the first one shown
  when there are at most ten records.
\<close>

theorem chart_progress_summary:
  assumes "2 \<le> length records"
  shows "(let series = sort_key rec_date records;
              shown = drop (length series - 10) series;
              first_value = rec_weight (hd series);
              last_value = rec_weight (last series)
          in last (show_progress_chart ex records) =
               Progress first_value last_value (if first_value \<le> last_value then ''+'' else [])
                 (last_value - first_value)
             \<and> last shown = last series
             \<and> (length records \<le> 10 \<longrightarrow> hd shown = hd series))"
proof -
  define s where "s = sort_key rec_date records"
  have l3: "length s = length records" unfolding s_def by simp
  have l1: "\<not> length s < 2" using assms l3 by simp
  have l2: "s \<noteq> []" using assms l3 by (cases s) simp_all
  note len = l1 l2 l3
  have "last (show_progress_chart ex records) =
      Progress (rec_weight (hd s)) (rec_weight (last s))
        (if 0 \<le> rec_weight (last s) - rec_weight (hd s) then ''+'' else [])
        (rec_weight (last s) - rec_weight (hd s))"
    using len(1) unfolding show_progress_chart_def Let_def s_def [symmetric] by simp
  moreover have "last (drop (length s - 10) s) = last s"
    using len(2) by (simp add: last_drop)
  moreover have "hd (drop (length s - 10) s) = hd s" if "length records \<le> 10"
    using that len(3) by simp
  ultimately show ?thesis
    unfolding Let_def s_def [symmetric] by simp
qed

text \<open>A series that rises by 10 and a series that falls by 5.\<close>

theorem chart_progress_summary_witness:
  "last (show_progress_chart ''Squat''
      [lifted ''2026-11-03 10:00'' 100, lifted ''2026-11-01 10:00'' 90, lifted ''2026-11-02 10:00'' 95])
     = Progress 90 100 ''+'' 10
   \<and> last (show_progress_chart ''Squat''
      [lifted ''2026-11-01 10:00'' 100, lifted ''2026-11-02 10:00'' 95]) = Progress 100 95 [] (- 5)"
proof -
  let ?r = "[lifted ''2026-11-03 10:00'' 100, lifted ''2026-11-01 10:00'' 90, lifted ''2026-11-02 10:00'' 95]"
  let ?q = "[lifted ''2026-11-01 10:00'' 100, lifted ''2026-11-02 10:00'' 95]"
  have len: "2 \<le> length ?r" "2 \<le> length ?q" by simp_all
  have s: "sort_key rec_date ?r =
      [lifted ''2026-11-01 10:00'' 90, lifted ''2026-11-02 10:00'' 95, lifted ''2026-11-03 10:00'' 100]"
    "sort_key rec_date ?q = ?q"
    by code_simp+
  show ?thesis
    using chart_progress_summary [OF len(1), of "''Squat''"]
      chart_progress_summary [OF len(2), of "''Squat''"]
    unfolding Let_def s by (simp add: lifted_def)
qed

text \<open>
  Claim C5 as stated has the summary start from the first value shown. Of eleven
  sessions the chart shows the last ten, from the second of October at 60kg on, and
  the summary starts from the 50kg of the first of October.
\<close>

theorem chart_first_displayed_counterexample:
  "show_progress_chart ''Squat'' eleven_sessions ! 12 =
     DateLabels [''10-02'', ''10-03'', ''10-04'', ''10-05'', ''10-06'', ''10-07'', ''10-08'', ''10-09'',
       ''10-10'', ''10-11'']
   \<and> rec_weight (hd (drop (length eleven_sessions - 10) (sort_key rec_date eleven_sessions))) = 60
   \<and> last (show_progress_chart ''Squat'' eleven_sessions) = Progress 50 78 ''+'' 28"
  by code_simp

subsection \<open>Weekly summary\<close>

text \<open>
  Claim C6, as amended. For the meals of the week, when there is at least one: the
  total is the sum of their calories, the days logged are the distinct dates among
  them, at least one, and the daily average is the total divided by that number of
  days. When the week has no meal the summary reports only that no meals were logged:
  no total and no average. The meals of the week are those dated, as text, on or after
  the day seven days before today, and their lines end the summary.
\<close>

theorem nutrition_totals:
  "nutrition_stats [] = [NoMeals]
   \<and> (week_meals \<noteq> [] \<longrightarrow>
        0 < card (meal_date ` set week_meals)
        \<and> take 3 (nutrition_stats week_meals) =
            [TotalCalories (sum_list (map calories week_meals)),
             DaysLogged (card (meal_date ` set week_meals)),
             DailyAverage (of_int (sum_list (map calories week_meals))
                           / of_nat (card (meal_date ` set week_meals)))])
   \<and> (view_weekly_summary now workouts meals = Inr out \<longrightarrow>
        (\<exists>lines. out = lines @ nutrition_stats (filter (\<lambda>m. week_ago_str now \<le> meal_date m) meals)))"
proof -
  have a: "nutrition_stats [] = [NoMeals]" by (simp add: nutrition_stats_def)
  have d: "length (remdups (map meal_date week_meals)) = card (meal_date ` set week_meals)"
    using length_remdups_card_conv [of "map meal_date week_meals"] by simp
  have b: "0 < card (meal_date ` set week_meals)" if "week_meals \<noteq> []"
    using that by (simp add: card_gt_0_iff)
  have c: "take 3 (nutrition_stats week_meals) =
            [TotalCalories (sum_list (map calories week_meals)),
             DaysLogged (card (meal_date ` set week_meals)),
             DailyAverage (of_int (sum_list (map calories week_meals))
                           / of_nat (card (meal_date ` set week_meals)))]" if "week_meals \<noteq> []"
    using that b [OF that] unfolding nutrition_stats_def Let_def d by simp
  have e: "\<exists>lines. out = lines @ nutrition_stats (filter (\<lambda>m. week_ago_str now \<le> meal_date m) meals)"
    if "view_weekly_summary now workouts meals = Inr out"
    using that unfolding view_weekly_summary_def Let_def
    by (auto split: sum.splits intro: exI [of _ "_ # _"])
  show ?thesis using a b c e by blast
qed

text \<open>
  Four meals on three days of the week, 2100 calories in all, and one meal a month
  earlier: the average is 700.
\<close>

theorem nutrition_totals_witness:
  "view_weekly_summary (2026, 11, 3) []
     [eaten ''2026-11-01'' ''rice'' 700, eaten ''2026-11-02'' ''rice'' 500, eaten ''2026-11-02'' ''beef'' 400,
      eaten ''2026-11-03'' ''tofu'' 500, eaten ''2026-10-01'' ''tofu'' 900] =
   Inr [WeekRange ''2026-10-27'' ''2026-11-03'', NoWorkouts,
        TotalCalories 2100, DaysLogged 3, DailyAverage 700,
        TopFood ''rice'' 2, TopFood ''beef'' 1, TopFood ''tofu'' 1]"
proof -
  let ?all = "[eaten ''2026-11-01'' ''rice'' 700, eaten ''2026-11-02'' ''rice'' 500,
      eaten ''2026-11-02'' ''beef'' 400, eaten ''2026-11-03'' ''tofu'' 500, eaten ''2026-10-01'' ''tofu'' 900]"
  let ?wm = "[eaten ''2026-11-01'' ''rice'' 700, eaten ''2026-11-02'' ''rice'' 500,
      eaten ''2026-11-02'' ''beef'' 400, eaten ''2026-11-03'' ''tofu'' 500]"
  have w: "filter (\<lambda>m. week_ago_str (2026, 11, 3) \<le> meal_date m) ?all = ?wm" by code_simp
  have ne: "?wm \<noteq> []" by simp
  have t: "sum_list (map calories ?wm) = 2100" by code_simp
  have c: "card (meal_date ` set ?wm) = 3" by code_simp
  have top: "drop 3 (nutrition_stats ?wm) = [TopFood ''rice'' 2, TopFood ''beef'' 1, TopFood ''tofu'' 1]"
    by code_simp
  have hd3: "take 3 (nutrition_stats ?wm) = [TotalCalories 2100, DaysLogged 3, DailyAverage 700]"
    using nutrition_totals [of ?wm] ne unfolding t c by simp
  have "nutrition_stats ?wm = take 3 (nutrition_stats ?wm) @ drop 3 (nutrition_stats ?wm)" by simp
  then have n: "nutrition_stats ?wm =
      [TotalCalories 2100, DaysLogged 3, DailyAverage 700,
       TopFood ''rice'' 2, TopFood ''beef'' 1, TopFood ''tofu'' 1]"
    unfolding hd3 top by simp
  have r: "week_ago_str (2026, 11, 3) = ''2026-10-27''" "strftime (2026, 11, 3) = ''2026-11-03''"
    by code_simp+
  show ?thesis
    unfolding view_weekly_summary_def Let_def w n by (simp add: workout_stats_def r)
qed

text \<open>
  Claim C6 as stated has an average of 0 reported when no day has a meal. With no meal
  in the week the nutrition part is a single line, and it is not an average.
\<close>

theorem no_meals_counterexample:
  "view_weekly_summary (2026, 11, 3) [] [] = Inr [WeekRange ''2026-10-27'' ''2026-11-03'', NoWorkouts, NoMeals]
   \<and> DailyAverage 0 \<notin> set (nutrition_stats [])"
  by code_simp

subsection \<open>Calendar days\<close>

text \<open>
  Two facts that tie the calendar functions to each other. The day before a day of the
  calendar has the ordinal one less, as \<^verbatim>\<open>timedelta(days=1)\<close> subtracts; and \<^verbatim>\<open>strptime\<close>
  reads back the day that \<^verbatim>\<open>strftime\<close> wrote.
\<close>

lemma div_step:
  assumes "0 < k"
  shows "(z::int) div k - (z - 1) div k = (if z mod k = 0 then 1 else 0)"
proof (cases "z mod k = 0")
  case True
  have "z = k * (z div k) + z mod k" by simp
  with True have "z = k * (z div k)" by simp
  then have "z - 1 = k * (z div k - 1) + (k - 1)"
    by (simp add: right_diff_distrib)
  moreover have "0 \<le> k - 1" "k - 1 < k" using assms by simp_all
  ultimately have "(z - 1) div k = z div k - 1"
    by (rule int_div_pos_eq)
  with True show ?thesis by simp
next
  case False
  have r: "0 \<le> z mod k - 1" "z mod k - 1 < k"
    using assms False pos_mod_sign [of k z] pos_mod_bound [of k z] by linarith+
  have "z - 1 = k * (z div k) + (z mod k - 1)" by simp
  then have "(z - 1) div k = z div k"
    using r by (rule int_div_pos_eq)
  with False show ?thesis by simp
qed

lemma leap_step:
  "days_before_year (z + 1) = days_before_year z + 365 + (if is_leap z then 1 else 0)"
proof -
  define p where "p = (z - 1) div 4"
  define q where "q = (z - 1) div 100"
  define r where "r = (z - 1) div 400"
  have a: "z div 4 = p + (if z mod 4 = 0 then 1 else 0)"
    using div_step [of 4 z] unfolding p_def by simp
  have b: "z div 100 = q + (if z mod 100 = 0 then 1 else 0)"
    using div_step [of 100 z] unfolding q_def by simp
  have c: "z div 400 = r + (if z mod 400 = 0 then 1 else 0)"
    using div_step [of 400 z] unfolding r_def by simp
  have d1: "z mod 100 = 0" if "z mod 400 = 0"
    using that mod_mod_cancel [of 100 400 z] by simp
  have d2: "z mod 4 = 0" if "z mod 100 = 0"
    using that mod_mod_cancel [of 4 100 z] by simp
  have e: "days_before_year (z + 1) = z * 365 + z div 4 - z div 100 + z div 400"
    by (simp add: days_before_year_def)
  have f: "days_before_year z = (z - 1) * 365 + p - q + r"
    by (simp add: days_before_year_def p_def q_def r_def)
  have g: "(z - 1) * 365 = z * 365 - 365" by (simp add: left_diff_distrib)
  consider "z mod 4 \<noteq> 0" | "z mod 4 = 0" "z mod 100 \<noteq> 0" | "z mod 100 = 0" "z mod 400 \<noteq> 0"
    | "z mod 400 = 0" by fastforce
  then show ?thesis
  proof cases
    case 1
    then have n: "z mod 100 \<noteq> 0" "z mod 400 \<noteq> 0" using d1 d2 by auto
    have "\<not> is_leap z" using 1 by (simp add: is_leap_def)
    moreover have "z div 4 = p" "z div 100 = q" "z div 400 = r" using a b c 1 n by simp_all
    ultimately show ?thesis unfolding e f g by simp
  next
    case 2
    then have n: "z mod 400 \<noteq> 0" using d1 by auto
    have "is_leap z" using 2 by (simp add: is_leap_def)
    moreover have "z div 4 = p + 1" "z div 100 = q" "z div 400 = r" using a b c 2 n by simp_all
    ultimately show ?thesis unfolding e f g by simp
  next
    case 3
    then have n: "z mod 4 = 0" using d2 by auto
    have "\<not> is_leap z" using 3 by (simp add: is_leap_def)
    moreover have "z div 4 = p + 1" "z div 100 = q + 1" "z div 400 = r" using a b c 3 n by simp_all
    ultimately show ?thesis unfolding e f g by simp
  next
    case 4
    have n1: "z mod 100 = 0" using d1 [OF 4] .
    have n2: "z mod 4 = 0" using d2 [OF n1] .
    note n = n1 n2
    have "is_leap z" using 4 n by (simp add: is_leap_def)
    moreover have "z div 4 = p + 1" "z div 100 = q + 1" "z div 400 = r + 1" using a b c 4 n by simp_all
    ultimately show ?thesis unfolding e f g by simp
  qed
qed

lemma before_december: "days_before_month y 12 = 334 + (if is_leap y then 1 else 0)"
  by (simp add: days_before_month_def days_in_month_def upto_rec1)

lemma before_next_month:
  "1 < m \<Longrightarrow> days_before_month y m = days_before_month y (m - 1) + days_in_month y (m - 1)"
  using upto_rec2 [of 1 "m - 1"] by (simp add: days_before_month_def)

lemma days_in_month_pos: "28 \<le> days_in_month y m"
  by (simp add: days_in_month_def)

lemma prev_day_is_yesterday:
  assumes "valid_day t" and "t \<noteq> (1, 1, 1)"
  shows "valid_day (prev_day t) \<and> toordinal (prev_day t) = toordinal t - 1"
proof -
  obtain y m d where t: "t = (y, m, d)" by (cases t)
  from assms(1) have v: "1 \<le> y" "y \<le> 9999" "1 \<le> m" "m \<le> 12" "1 \<le> d" "d \<le> days_in_month y m"
    unfolding t valid_day_def by auto
  consider "1 < d" | "d = 1" "1 < m" | "d = 1" "m = 1" using v by linarith
  then show ?thesis
  proof cases
    case 1
    then show ?thesis using v unfolding t by (simp add: prev_day_def valid_day_def toordinal_def)
  next
    case 2
    then show ?thesis
      using v days_in_month_pos [of y "m - 1"] before_next_month [of m y] unfolding t
      by (simp add: prev_day_def valid_day_def toordinal_def)
  next
    case 3
    with assms(2) v have y: "2 \<le> y" unfolding t by auto
    have s: "days_before_year y = days_before_year (y - 1) + 365 + (if is_leap (y - 1) then 1 else 0)"
      using leap_step [of "y - 1"] by simp
    have z: "days_before_month y 1 = 0" by (simp add: days_before_month_def)
    have p: "prev_day t = (y - 1, 12, 31)" using 3 unfolding t by (simp add: prev_day_def)
    have "valid_day (y - 1, 12, 31)" using y v by (simp add: valid_day_def days_in_month_def)
    moreover have "toordinal (y - 1, 12, 31) = toordinal (y, 1, 1) - 1"
      unfolding toordinal_def using s z before_december [of "y - 1"] by simp
    ultimately show ?thesis using 3 unfolding p unfolding t by simp
  qed
qed

lemma small_cases:
  "0 \<le> (k::int) \<Longrightarrow> k \<le> 9 \<Longrightarrow> k \<in> {0, 1, 2, 3, 4, 5, 6, 7, 8, 9}"
  by (simp only: insert_iff empty_iff) presburger

lemma digit_char_facts:
  "is_digit (digit_char n) \<and> digit_char n \<noteq> CHR ''-'' \<and> digit_val (digit_char n) = n mod 10"
proof -
  have a: "digit_char n = digit_char (n mod 10)" by (simp add: digit_char_def)
  have "0 \<le> n mod 10" "n mod 10 \<le> 9" by simp_all
  then have "n mod 10 \<in> {0, 1, 2, 3, 4, 5, 6, 7, 8, 9}" by (rule small_cases)
  moreover have "\<forall>k\<in>{0, 1, 2, 3, 4, 5, 6, 7, 8, 9 :: int}.
      is_digit (digit_char k) \<and> digit_char k \<noteq> CHR ''-'' \<and> digit_val (digit_char k) = k"
    by code_simp
  ultimately show ?thesis unfolding a [symmetric] using a by metis
qed

lemma month_roundtrip:
  assumes "1 \<le> m" "m \<le> 12"
  shows "parse_month [digit_char (m div 10), digit_char m] = Some m"
proof -
  have "m \<in> {1, 2, 3, 4, 5, 6, 7, 8, 9, 10, 11, 12}"
    using assms by (simp only: insert_iff empty_iff) presburger
  moreover have "\<forall>k\<in>{1, 2, 3, 4, 5, 6, 7, 8, 9, 10, 11, 12 :: int}.
      parse_month [digit_char (k div 10), digit_char k] = Some k"
    by code_simp
  ultimately show ?thesis by blast
qed

lemma day_roundtrip:
  assumes "1 \<le> d" "d \<le> 31"
  shows "parse_day [digit_char (d div 10), digit_char d] = Some d"
proof -
  have "d \<in> {1, 2, 3, 4, 5, 6, 7, 8, 9, 10, 11, 12, 13, 14, 15, 16, 17, 18, 19, 20, 21, 22, 23,
      24, 25, 26, 27, 28, 29, 30, 31}"
    using assms by (simp only: insert_iff empty_iff) presburger
  moreover have "\<forall>k\<in>{1, 2, 3, 4, 5, 6, 7, 8, 9, 10, 11, 12, 13, 14, 15, 16, 17, 18, 19, 20, 21, 22, 23,
      24, 25, 26, 27, 28, 29, 30, 31 :: int}.
      parse_day [digit_char (k div 10), digit_char k] = Some k"
    by code_simp
  ultimately show ?thesis by blast
qed

lemma year_digits:
  assumes "0 \<le> y" "y \<le> 9999"
  shows "10 * (10 * (10 * (y div 1000 mod 10) + y div 100 mod 10) + y div 10 mod 10) + y mod 10 = (y::int)"
proof -
  have a: "y = 10 * (y div 10) + y mod 10" by simp
  have b: "y div 10 = 10 * (y div 100) + y div 10 mod 10"
    using mult_div_mod_eq [of 10 "y div 10"] by (simp add: zdiv_zmult2_eq [symmetric])
  have c: "y div 100 = 10 * (y div 1000) + y div 100 mod 10"
    using mult_div_mod_eq [of 10 "y div 100"] by (simp add: zdiv_zmult2_eq [symmetric])
  have "0 \<le> y div 1000" "y div 1000 < 10" using assms by simp_all
  then have d: "y div 1000 mod 10 = y div 1000" by simp
  have "10 * (10 * (10 * (y div 1000) + y div 100 mod 10) + y div 10 mod 10) + y mod 10
      = 10 * (10 * (y div 100) + y div 10 mod 10) + y mod 10"
    by (simp only: c [symmetric])
  also have "\<dots> = 10 * (y div 10) + y mod 10"
    by (simp only: b [symmetric])
  also have "\<dots> = y" by simp
  finally show ?thesis unfolding d .
qed

lemma days_in_month_le: "days_in_month y m \<le> 31"
  by (simp add: days_in_month_def)

lemma digit_char_digit: "is_digit (digit_char n)"
  using digit_char_facts by blast

lemma digit_char_not_hyphen: "digit_char n \<noteq> CHR ''-''"
  using digit_char_facts by blast

lemma digit_val_digit_char: "digit_val (digit_char n) = n mod 10"
  using digit_char_facts by blast

lemma strptime_strftime:
  assumes "valid_day t"
  shows "strptime (strftime t) = Some t"
proof -
  obtain y m d where t: "t = (y, m, d)" by (cases t)
  from assms have v: "1 \<le> y" "y \<le> 9999" "1 \<le> m" "m \<le> 12" "1 \<le> d" "d \<le> days_in_month y m"
    unfolding t valid_day_def by auto
  have y0: "0 \<le> y" using v(1) by simp
  have d31: "d \<le> 31" using v(6) days_in_month_le [of y m] by linarith
  define ys where "ys = [digit_char (y div 1000), digit_char (y div 100), digit_char (y div 10), digit_char y]"
  define ms where "ms = [digit_char (m div 10), digit_char m]"
  define ds where "ds = [digit_char (d div 10), digit_char d]"
  have s: "strftime t = ys @ CHR ''-'' # ms @ CHR ''-'' # ds"
    unfolding t strftime_def ys_def ms_def ds_def by simp
  have y1: "length ys = 4" "list_all is_digit ys"
    unfolding ys_def by (simp_all add: digit_char_digit)
  have "digits_val ys =
      10 * (10 * (10 * digit_val (digit_char (y div 1000)) + digit_val (digit_char (y div 100)))
            + digit_val (digit_char (y div 10))) + digit_val (digit_char y)"
    unfolding ys_def digits_val_def by simp
  also have "\<dots> = 10 * (10 * (10 * (y div 1000 mod 10) + y div 100 mod 10) + y div 10 mod 10) + y mod 10"
    by (simp only: digit_val_digit_char)
  also have "\<dots> = y" by (rule year_digits [OF y0 v(2)])
  finally have y2: "digits_val ys = y" .
  have m1: "takeWhile (\<lambda>c. c \<noteq> CHR ''-'') (ms @ CHR ''-'' # ds) = ms"
    "dropWhile (\<lambda>c. c \<noteq> CHR ''-'') (ms @ CHR ''-'' # ds) = CHR ''-'' # ds"
    unfolding ms_def by (simp_all add: digit_char_not_hyphen)
  have m2: "parse_month ms = Some m" unfolding ms_def using v(3,4) by (rule month_roundtrip)
  have d2: "parse_day ds = Some d" unfolding ds_def using v(5) d31 by (rule day_roundtrip)
  have p: "take 4 (strftime t) = ys" "drop 4 (strftime t) = CHR ''-'' # ms @ CHR ''-'' # ds"
    unfolding s using y1(1) by simp_all
  have "strptime (strftime t) =
      (case (parse_month ms, parse_day ds) of
         (Some m', Some d') \<Rightarrow>
           let y' = digits_val ys in
           if 1 \<le> y' \<and> d' \<le> days_in_month y' m' then Some (y', m', d') else None
       | _ \<Rightarrow> None)"
    unfolding strptime_def Let_def p using y1 by (simp add: m1)
  also have "\<dots> = Some (y, m, d)"
    unfolding m2 d2 y2 using v(1,6) by simp
  finally show ?thesis unfolding t .
qed

subsection \<open>Streak\<close>






subsection \<open>Further properties\<close>

text \<open>
  Further property X1. When the second of two neighbouring dates of the list is no date
  for \<^verbatim>\<open>strptime\<close>, the loop of \<^verbatim>\<open>calculate_streak\<close> raises \<^verbatim>\<open>ValueError\<close>, whatever the
  first one is: nothing catches it.
\<close>

theorem streak_raises_on_unreadable_date:
  assumes "strptime b = None"
  shows "streak_loop (a # b # rest) n = Inl ValueError"
  using assms by (simp split: option.splits)

text \<open>An entry dated today and an entry whose stored date has the day 00.\<close>

theorem streak_raises_on_unreadable_date_witness:
  "calculate_streak (2026, 11, 3)
     [logged ''2026-11-03 10:00'' ''Squat'' ''100kg'', logged ''2026-11-00 10:00'' ''Squat'' ''100kg'']
   = Inl ValueError"
proof -
  let ?ws = "[logged ''2026-11-03 10:00'' ''Squat'' ''100kg'', logged ''2026-11-00 10:00'' ''Squat'' ''100kg'']"
  have d: "workout_dates ?ws = [''2026-11-03'', ''2026-11-00'']" by code_simp
  have n: "strptime ''2026-11-00'' = None" by code_simp
  have t: "strftime (2026, 11, 3) = ''2026-11-03''" by code_simp
  show ?thesis
    unfolding calculate_streak_def Let_def d t
    using streak_raises_on_unreadable_date [OF n, of "''2026-11-03''" "[]" 1] by simp
qed

text \<open>
  Further property X2. Two spellings of an exercise that differ only in the case of
  their letters get the same answer from \<open>check_pr\<close>.
\<close>

theorem check_pr_ignores_case:
  assumes "lower ex = lower ex'"
  shows "check_pr ws ex nw = check_pr ws ex' nw"
proof -
  have h: "get_pr_for_exercise ws ex = get_pr_for_exercise ws ex'"
    using assms by (simp add: get_pr_for_exercise_def)
  show ?thesis unfolding check_pr_def h by (rule refl)
qed

text \<open>A stored squat, asked for in capitals and in small letters.\<close>

theorem check_pr_ignores_case_witness:
  "check_pr [logged ''2026-11-01 10:00'' ''Squat'' ''100kg''] ''SQUAT'' (Some ''105kg'')
     = check_pr [logged ''2026-11-01 10:00'' ''Squat'' ''100kg''] ''squat'' (Some ''105kg'')"
proof -
  have "lower ''SQUAT'' = lower ''squat''" by code_simp
  then show ?thesis by (rule check_pr_ignores_case)
qed

lemma fold_min_le: "fold (\<lambda>y m. if y < m then y else m) xs (x::rat) \<le> x"
  by (induction xs arbitrary: x) (auto intro: order_trans less_imp_le)

lemma fold_min_le_all:
  "\<forall>y\<in>set xs. fold (\<lambda>y m. if y < m then y else m) xs (x::rat) \<le> y"
proof (induction xs arbitrary: x)
  case Nil
  then show ?case by simp
next
  case (Cons a xs)
  have "fold (\<lambda>y m. if y < m then y else m) xs (if a < x then a else x) \<le> a"
    using fold_min_le [of xs "if a < x then a else x"] by (auto split: if_splits)
  with Cons.IH show ?case by simp
qed

text \<open>
  Further property X3. For two records or more, the last of the eight rows of the chart,
  the row of the minimum, has every shown point filled.
\<close>

theorem chart_bottom_row_full:
  assumes "2 \<le> length records"
  shows "show_progress_chart ex records ! 10 =
           ChartRow (replicate (min 10 (length records)) True)"
proof -
  define s where "s = sort_key rec_date records"
  define shown where "shown = drop (length s - 10) s"
  define ws where "ws = map rec_weight s"
  have len: "\<not> length s < 2" using assms unfolding s_def by simp
  have "length ws = length records" unfolding ws_def s_def by simp
  with assms obtain w ws' where w: "ws = w # ws'" by (cases ws) auto
  have "\<forall>y\<in>set ws. py_min ws \<le> y"
    unfolding w using fold_min_le [of ws' w] fold_min_le_all [of ws' w] by simp
  moreover have "set shown \<subseteq> set s" unfolding shown_def by (rule set_drop_subset)
  ultimately have all: "\<forall>r\<in>set shown. py_min ws \<le> rec_weight r"
    unfolding ws_def by auto
  have n: "length shown = min 10 (length records)" unfolding shown_def s_def by auto
  have "show_progress_chart ex records ! 10 = chart_row (py_min ws)
      (if py_max ws \<noteq> py_min ws then py_max ws - py_min ws else 1) shown 0"
    using len unfolding show_progress_chart_def Let_def s_def [symmetric] ws_def [symmetric]
      shown_def [symmetric] by (simp add: chart_height_def nth_append rev_nth)
  also have "\<dots> = ChartRow (map (\<lambda>r. True) shown)"
    using all by (simp add: chart_row_def)
  also have "\<dots> = ChartRow (replicate (min 10 (length records)) True)"
    using n by (simp add: map_replicate_const)
  finally show ?thesis .
qed

text \<open>The three records of the chart example.\<close>

theorem chart_bottom_row_full_witness:
  "show_progress_chart ''Squat''
      [lifted ''2026-11-03 10:00'' 100, lifted ''2026-11-01 10:00'' 90, lifted ''2026-11-02 10:00'' 95] ! 10
     = ChartRow [True, True, True]"
proof -
  let ?r = "[lifted ''2026-11-03 10:00'' 100, lifted ''2026-11-01 10:00'' 90, lifted ''2026-11-02 10:00'' 95]"
  have len: "2 \<le> length ?r" by simp
  show ?thesis using chart_bottom_row_full [OF len, of "''Squat''"] by (simp add: numeral_3_eq_3)
qed

end
